theory Spec2Isabelle
  imports Complex_Main
begin

section \<open>Data model\<close>

text \<open>
  The script \<^verbatim>\<open>analyze_spectra.py\<close> reads two CSV files with \<^verbatim>\<open>readcsv\<close> and then
  classifies the rows of the measurement file in three independent ways. The values
  returned by \<^verbatim>\<open>readcsv(file, header=True)\<close> are kept together in a record. Intensities
  and wavenumbers are modelled as exact rationals: rounding of floating-point arithmetic
  and NaN cells are outside the model.
\<close>

datatype error = ValueError | TypeError | KeyError | DegenerateInputError | AxisMismatchError

record dataset =
  header_labels :: "string list"
  header_columns :: "string list list"
  wavenumbers :: "rat list"
  intensities :: "rat list list"

text \<open>
  \<^verbatim>\<open>readcsv\<close> allocates \<^verbatim>\<open>np.zeros((nMeasurements, nFeatures))\<close> and stacks one header row
  per line, so what it returns is rectangular.
\<close>

definition wf_dataset :: "dataset \<Rightarrow> bool" where
  "wf_dataset ds \<longleftrightarrow>
     length (header_columns ds) = length (intensities ds) \<and>
     list_all (\<lambda>h. length h = length (header_labels ds)) (header_columns ds) \<and>
     list_all (\<lambda>r. length r = length (wavenumbers ds)) (intensities ds)"

section \<open>Approach 1: peak intensity against a relaxed Otsu threshold\<close>

text \<open>
  \<^verbatim>\<open>peak_intensities = np.max(intensities, axis=1)\<close>. numpy raises ValueError when the
  reduced axis has length zero.
\<close>

definition peak_intensities :: "dataset \<Rightarrow> error + rat list" where
  "peak_intensities ds =
     (if wavenumbers ds = [] \<or> [] \<in> set (intensities ds) then Inl ValueError
      else Inr (map (\<lambda>row. Max (set row)) (intensities ds)))"

text \<open>
  The loop
  \<^verbatim>\<open>for i, intensity in enumerate(peak_intensities):
      if intensity >= threshold_relaxed: strong_spectra.append(i)
      else: weak_spectra.append(i)\<close>
  with the two lists as explicit state.
\<close>

fun classify_loop :: "rat \<Rightarrow> (nat \<times> rat) list \<Rightarrow> nat list \<times> nat list \<Rightarrow> nat list \<times> nat list" where
  "classify_loop threshold_relaxed [] (strong_spectra, weak_spectra) = (strong_spectra, weak_spectra)"
| "classify_loop threshold_relaxed ((i, intensity) # rest) (strong_spectra, weak_spectra) =
     (if intensity \<ge> threshold_relaxed
      then classify_loop threshold_relaxed rest (strong_spectra @ [i], weak_spectra)
      else classify_loop threshold_relaxed rest (strong_spectra, weak_spectra @ [i]))"

text \<open>
  \<^verbatim>\<open>threshold_otsu\<close> is imported from scikit-image and is not part of the repository: the
  classifier takes it as the parameter \<open>otsu\<close>, a call that either raises or returns the
  threshold. The factor \<^verbatim>\<open>0.715\<close> of the source is the parameter \<open>r\<close> of \<open>approach1_relax\<close>;
  \<open>approach1\<close> is the script as written. The result is
  \<open>(strong_spectra, weak_spectra, threshold_relaxed)\<close>.
\<close>

definition approach1_relax ::
  "(rat list \<Rightarrow> error + rat) \<Rightarrow> rat \<Rightarrow> dataset \<Rightarrow> error + (nat list \<times> nat list \<times> rat)" where
  "approach1_relax otsu r ds =
     (case peak_intensities ds of
        Inl e \<Rightarrow> Inl e
      | Inr peaks \<Rightarrow>
          (case otsu peaks of
             Inl e \<Rightarrow> Inl e
           | Inr threshold \<Rightarrow>
               (let threshold_relaxed = threshold * r;
                    (strong_spectra, weak_spectra) =
                       classify_loop threshold_relaxed (enumerate 0 peaks) ([], [])
                in Inr (strong_spectra, weak_spectra, threshold_relaxed))))"

definition approach1 ::
  "(rat list \<Rightarrow> error + rat) \<Rightarrow> dataset \<Rightarrow> error + (nat list \<times> nat list \<times> rat)" where
  "approach1 otsu ds = approach1_relax otsu (715 / 1000) ds"

section \<open>The merged dataframe\<close>

text \<open>
  \<^verbatim>\<open>measurement_df = pd.concat([df1, df2], axis=1)\<close> puts the header columns (strings)
  in front of the intensity columns (floats), row by row. A row of the dataframe is a
  list of cells. Columns are addressed by position: the source selects the columns of
  \<^verbatim>\<open>wave_num\<close> by label, which is the same column as long as labels are not repeated.
\<close>

datatype cell = Meta string | Num rat

definition measurement_df :: "dataset \<Rightarrow> cell list list" where
  "measurement_df ds =
     map2 (\<lambda>h r. map Meta h @ map Num r) (header_columns ds) (intensities ds)"

definition ncols :: "dataset \<Rightarrow> nat" where
  "ncols ds = length (header_labels ds) + length (wavenumbers ds)"

text \<open>\<^verbatim>\<open>df.iloc[:, k:]\<close>: every row without its first \<open>k\<close> cells.\<close>

definition iloc_from :: "nat \<Rightarrow> cell list list \<Rightarrow> cell list list" where
  "iloc_from k df = map (drop k) df"

definition column :: "nat \<Rightarrow> cell list list \<Rightarrow> cell list" where
  "column j df = map (\<lambda>row. row ! j) df"

text \<open>\<^verbatim>\<open>wave_num = measurement_df.iloc[:, 10:].columns\<close>, as column positions.\<close>

definition wave_num :: "dataset \<Rightarrow> nat list" where
  "wave_num ds = [10..<ncols ds]"

section \<open>Approach 2: interquartile fences per wavenumber\<close>

text \<open>
  \<^verbatim>\<open>Series.quantile(q)\<close> with the default linear interpolation, on a column without NaN:
  the value at position \<open>(n - 1) * q\<close> of the sorted column, interpolated between its two
  neighbours. On an empty column pandas returns NaN, modelled as \<open>None\<close>.
\<close>

definition quantile :: "rat list \<Rightarrow> rat \<Rightarrow> rat option" where
  "quantile xs q =
     (if xs = [] then None
      else let s = sort xs;
               h = of_nat (length s - 1) * q;
               i = nat \<lfloor>h\<rfloor>;
               frac = h - of_int \<lfloor>h\<rfloor>
           in Some (if i + 1 < length s then s ! i + (s ! (i + 1) - s ! i) * frac
                    else s ! (length s - 1)))"

text \<open>A quantile of a column of strings raises TypeError.\<close>

fun is_Num :: "cell \<Rightarrow> bool" where
  "is_Num (Num v) = True"
| "is_Num (Meta s) = False"

fun num_of :: "cell \<Rightarrow> rat" where
  "num_of (Num v) = v"
| "num_of (Meta s) = 0"

definition numeric_column :: "cell list \<Rightarrow> error + rat list" where
  "numeric_column col = (if list_all is_Num col then Inr (map num_of col) else Inl TypeError)"

text \<open>
  \<^verbatim>\<open>q1, q3, iqr, lower_bound = q1 - 5 * iqr, upper_bound = q3 + 4 * iqr\<close>, with the two
  multipliers as parameters. The result is \<open>None\<close> when the bounds are NaN.
\<close>

definition bounds :: "rat \<Rightarrow> rat \<Rightarrow> rat list \<Rightarrow> (rat \<times> rat) option" where
  "bounds k_lo k_hi col =
     (case quantile col (1 / 4) of
        None \<Rightarrow> None
      | Some q1 \<Rightarrow>
          (case quantile col (3 / 4) of
             None \<Rightarrow> None
           | Some q3 \<Rightarrow>
               (let iqr = q3 - q1;
                    lower_bound = q1 - (k_lo * iqr);
                    upper_bound = q3 + (k_hi * iqr)
                in Some (lower_bound, upper_bound))))"

text \<open>
  The filter of the first loop, \<^verbatim>\<open>(v < lower_bound) | (v > upper_bound)\<close>, and the filter
  of the second loop, \<^verbatim>\<open>(v <= lower_bound) | (v >= upper_bound)\<close>. A comparison with NaN
  is false.
\<close>

fun outside_strict :: "(rat \<times> rat) option \<Rightarrow> rat \<Rightarrow> bool" where
  "outside_strict None v = False"
| "outside_strict (Some (lower_bound, upper_bound)) v = (v < lower_bound \<or> v > upper_bound)"

fun outside_or_on :: "(rat \<times> rat) option \<Rightarrow> rat \<Rightarrow> bool" where
  "outside_or_on None v = False"
| "outside_or_on (Some (lower_bound, upper_bound)) v = (v \<le> lower_bound \<or> v \<ge> upper_bound)"

text \<open>
  First loop: \<^verbatim>\<open>for wave in wave_num: ... if len(measurement_df[...]) != 0:
  outlier.append(wave)\<close>.
\<close>

fun outlier_loop ::
  "rat \<Rightarrow> rat \<Rightarrow> cell list list \<Rightarrow> nat list \<Rightarrow> nat list \<Rightarrow> error + nat list" where
  "outlier_loop k_lo k_hi df [] outlier = Inr outlier"
| "outlier_loop k_lo k_hi df (wave # rest) outlier =
     (case numeric_column (column wave df) of
        Inl e \<Rightarrow> Inl e
      | Inr col \<Rightarrow>
          (if length (filter (outside_strict (bounds k_lo k_hi col)) col) \<noteq> 0
           then outlier_loop k_lo k_hi df rest (outlier @ [wave])
           else outlier_loop k_lo k_hi df rest outlier))"

text \<open>
  Second loop: \<^verbatim>\<open>for col in outlier: ... strong_spectra_approach2.extend(max_index)\<close>,
  where \<^verbatim>\<open>max_index\<close> is the index of every row that passes the second filter.
\<close>

definition filtered_index :: "(rat \<times> rat) option \<Rightarrow> rat list \<Rightarrow> nat list" where
  "filtered_index b col = filter (\<lambda>i. outside_or_on b (col ! i)) [0..<length col]"

fun strong_loop ::
  "rat \<Rightarrow> rat \<Rightarrow> cell list list \<Rightarrow> nat list \<Rightarrow> nat list \<Rightarrow> error + nat list" where
  "strong_loop k_lo k_hi df [] strong_spectra_approach2 = Inr strong_spectra_approach2"
| "strong_loop k_lo k_hi df (c # rest) strong_spectra_approach2 =
     (case numeric_column (column c df) of
        Inl e \<Rightarrow> Inl e
      | Inr col \<Rightarrow>
          strong_loop k_lo k_hi df rest
            (strong_spectra_approach2 @ filtered_index (bounds k_lo k_hi col) col))"

text \<open>
  The whole of approach 2. \<^verbatim>\<open>measurement_strong\<close> keeps the rows whose index is in
  \<^verbatim>\<open>set(strong_spectra_approach2)\<close>, \<^verbatim>\<open>measurement_weak\<close> the other rows; the result is
  the original index of the rows of each, and the list \<^verbatim>\<open>outlier\<close>.
\<close>

definition approach2_fences ::
  "rat \<Rightarrow> rat \<Rightarrow> dataset \<Rightarrow> error + (nat list \<times> nat list \<times> nat list)" where
  "approach2_fences k_lo k_hi ds =
     (let df = measurement_df ds in
      case outlier_loop k_lo k_hi df (wave_num ds) [] of
        Inl e \<Rightarrow> Inl e
      | Inr outlier \<Rightarrow>
          (case strong_loop k_lo k_hi df outlier [] of
             Inl e \<Rightarrow> Inl e
           | Inr strong_spectra_approach2 \<Rightarrow>
               Inr (filter (\<lambda>i. i \<in> set strong_spectra_approach2) [0..<length df],
                    filter (\<lambda>i. i \<notin> set strong_spectra_approach2) [0..<length df],
                    outlier)))"

definition approach2 :: "dataset \<Rightarrow> error + (nat list \<times> nat list \<times> nat list)" where
  "approach2 ds = approach2_fences 5 4 ds"

section \<open>Approach 3: membership in the media intensities\<close>

text \<open>
  \<^verbatim>\<open>media_intensities = media_df.iloc[:, 11:].values\<close> and
  \<^verbatim>\<open>mask = np.logical_not(np.isin(measurement_df.iloc[:, 11:].values,
  media_intensities).all(axis=1))\<close>. \<^verbatim>\<open>np.isin\<close> tests each cell for membership in the
  flattened second array; \<^verbatim>\<open>all(axis=1)\<close> is true of a row without cells. Nothing in
  these lines raises, and the wavenumbers of the two files are not compared.
\<close>

definition media_intensities :: "cell list list \<Rightarrow> cell list" where
  "media_intensities media_df = concat (iloc_from 11 media_df)"

definition mask :: "cell list list \<Rightarrow> cell list list \<Rightarrow> bool list" where
  "mask df media_df =
     map (\<lambda>row. \<not> list_all (\<lambda>v. v \<in> set (media_intensities media_df)) row)
         (iloc_from 11 df)"

text \<open>
  \<^verbatim>\<open>strong_filtered_measurement_df = measurement_df[mask]\<close> and
  \<^verbatim>\<open>non_matching_indexes = measurement_df[~mask].index.tolist()\<close>: the result is the index
  of the strong rows and the index of the weak rows.
\<close>

definition approach3 :: "dataset \<Rightarrow> dataset \<Rightarrow> error + (nat list \<times> nat list)" where
  "approach3 ds media =
     (let m = mask (measurement_df ds) (measurement_df media);
          strong_index = filter (\<lambda>i. m ! i) [0..<length m];
          non_matching_indexes = filter (\<lambda>i. \<not> m ! i) [0..<length m]
      in Inr (strong_index, non_matching_indexes))"

section \<open>Analysis 2: temporal distribution of the weak spectra\<close>

text \<open>
  A timestamp is a number of nanoseconds since the epoch, as in pandas, and \<open>None\<close> is
  NaT. \<^verbatim>\<open>pd.to_datetime\<close> is pandas' own: \<open>to_datetime\<close> is a parameter that parses one
  string and either raises or returns a timestamp or NaT.

  \<^verbatim>\<open>measurement_df['DateTime']\<close> is the header column with that label; without such a
  column the lookup raises KeyError.
\<close>

definition df_DateTime :: "dataset \<Rightarrow> error + string list" where
  "df_DateTime ds =
     (if ''DateTime'' \<in> set (header_labels ds)
      then Inr (map (\<lambda>h. h ! length (takeWhile (\<lambda>l. l \<noteq> ''DateTime'') (header_labels ds)))
                    (header_columns ds))
      else Inl KeyError)"

fun to_datetime_series ::
  "(string \<Rightarrow> error + int option) \<Rightarrow> string list \<Rightarrow> error + int option list" where
  "to_datetime_series to_datetime [] = Inr []"
| "to_datetime_series to_datetime (s # ss) =
     (case to_datetime s of
        Inl e \<Rightarrow> Inl e
      | Inr t \<Rightarrow>
          (case to_datetime_series to_datetime ss of
             Inl e \<Rightarrow> Inl e
           | Inr ts \<Rightarrow> Inr (t # ts)))"

text \<open>\<^verbatim>\<open>.dt.floor('10Min')\<close>: down to a multiple of ten minutes; NaT stays NaT.\<close>

definition ten_minutes :: int where
  "ten_minutes = 600000000000"

definition floor_10Min :: "int option \<Rightarrow> int option" where
  "floor_10Min = map_option (\<lambda>t. t - t mod ten_minutes)"

text \<open>
  \<^verbatim>\<open>value_counts()\<close> leaves NaT out and has one entry per distinct value. pandas orders
  the entries by count; the order does not reach the result, since \<^verbatim>\<open>sort_index()\<close>
  follows and the keys are distinct.
\<close>

definition dropna :: "int option list \<Rightarrow> int list" where
  "dropna xs = concat (map (\<lambda>x. case x of None \<Rightarrow> [] | Some v \<Rightarrow> [v]) xs)"

definition value_counts :: "int option list \<Rightarrow> (int \<times> nat) list" where
  "value_counts xs = map (\<lambda>v. (v, count_list (dropna xs) v)) (remdups (dropna xs))"

definition sort_index :: "(int \<times> nat) list \<Rightarrow> (int \<times> nat) list" where
  "sort_index = sort_key fst"

text \<open>
  \<^verbatim>\<open>count_by_period\<close> with \<^verbatim>\<open>interval_start\<close> and \<^verbatim>\<open>interval_end = interval_start +
  pd.Timedelta(minutes=10)\<close>: one triple (start, end, count) per entry.
\<close>

definition count_by_period :: "int option list \<Rightarrow> (int \<times> int \<times> nat) list" where
  "count_by_period DateTime =
     map (\<lambda>(interval_start, c). (interval_start, interval_start + ten_minutes, c))
         (sort_index (value_counts (map floor_10Min DateTime)))"

text \<open>
  \<^verbatim>\<open>mean_intensity = np.mean(df.loc[:, wave_num], axis=1)\<close>: the mean of the cells of a
  row from column 10 on; NaN (\<open>None\<close>) for a row without such cells.
\<close>

fun mean_intensity :: "cell list list \<Rightarrow> error + rat option list" where
  "mean_intensity [] = Inr []"
| "mean_intensity (row # rows) =
     (case numeric_column (drop 10 row) of
        Inl e \<Rightarrow> Inl e
      | Inr vs \<Rightarrow>
          (case mean_intensity rows of
             Inl e \<Rightarrow> Inl e
           | Inr ms \<Rightarrow>
               Inr ((if vs = [] then None else Some (sum_list vs / of_nat (length vs))) # ms)))"

text \<open>
  After approach 1: \<^verbatim>\<open>df = measurement_df[~measurement_df.index.isin(set(strong_spectra))]\<close>
  keeps its original index; \<^verbatim>\<open>df['DateTime'] = pd.to_datetime(df['DateTime'])\<close>. The
  first function returns the index of \<^verbatim>\<open>df\<close> and its parsed column, the second the
  two series that are plotted.
\<close>

definition weak_df :: "dataset \<Rightarrow> nat list \<Rightarrow> nat list" where
  "weak_df ds strong_spectra =
     filter (\<lambda>i. i \<notin> set strong_spectra) [0..<length (measurement_df ds)]"

definition weak_df_DateTime ::
  "(string \<Rightarrow> error + int option) \<Rightarrow> dataset \<Rightarrow> nat list \<Rightarrow> error + int option list" where
  "weak_df_DateTime to_datetime ds strong_spectra =
     (case df_DateTime ds of
        Inl e \<Rightarrow> Inl e
      | Inr col \<Rightarrow> to_datetime_series to_datetime (map (\<lambda>i. col ! i) (weak_df ds strong_spectra)))"

definition analysis2_approach1 ::
  "(string \<Rightarrow> error + int option) \<Rightarrow> dataset \<Rightarrow> nat list \<Rightarrow>
     error + ((int \<times> int \<times> nat) list \<times> (int option \<times> rat option) list)" where
  "analysis2_approach1 to_datetime ds strong_spectra =
     (case weak_df_DateTime to_datetime ds strong_spectra of
        Inl e \<Rightarrow> Inl e
      | Inr DateTime \<Rightarrow>
          (case mean_intensity (map (\<lambda>i. measurement_df ds ! i) (weak_df ds strong_spectra)) of
             Inl e \<Rightarrow> Inl e
           | Inr m \<Rightarrow> Inr (count_by_period DateTime, zip DateTime m)))"

text \<open>
  After approach 2: \<^verbatim>\<open>measurement_weak\<close> was built with \<^verbatim>\<open>reset_index()\<close>, so its index is
  \<open>0, 1, ...\<close>, and \<^verbatim>\<open>measurement_weak['DateTime'] = pd.to_datetime(df['DateTime'])\<close>
  assigns the column of approach 1's \<^verbatim>\<open>df\<close> by index label: row \<open>j\<close> of
  \<^verbatim>\<open>measurement_weak\<close> receives the timestamp that \<^verbatim>\<open>df\<close> has at label \<open>j\<close>, and NaT
  when \<^verbatim>\<open>df\<close> has no such label.
\<close>

definition measurement_weak_DateTime ::
  "nat list \<Rightarrow> int option list \<Rightarrow> nat list \<Rightarrow> int option list" where
  "measurement_weak_DateTime df_index df_dates measurement_weak =
     map (\<lambda>j. case map_of (zip df_index df_dates) j of None \<Rightarrow> None | Some t \<Rightarrow> t)
         [0..<length measurement_weak]"

definition analysis2_approach2 ::
  "dataset \<Rightarrow> nat list \<Rightarrow> int option list \<Rightarrow> nat list \<Rightarrow>
     error + ((int \<times> int \<times> nat) list \<times> (int option \<times> rat option) list)" where
  "analysis2_approach2 ds df_index df_dates measurement_weak =
     (let DateTime = measurement_weak_DateTime df_index df_dates measurement_weak in
      case mean_intensity (map (\<lambda>i. measurement_df ds ! i) measurement_weak) of
        Inl e \<Rightarrow> Inl e
      | Inr m \<Rightarrow> Inr (count_by_period DateTime, zip DateTime m))"

section \<open>The threshold of scikit-image\<close>

text \<open>
  \<^verbatim>\<open>threshold_otsu\<close> is imported from scikit-image; its code is not among the sources.
  The definitions of this section follow the specification (sections 4.1 and 7): the
  two-class threshold selection on a histogram of the peak intensities with a fixed
  number of bins, which fails with DegenerateInputError when all peak intensities are
  identical or there is none.
\<close>

text \<open>Modelled from the spec: running sums, for the class weights and class means
  (the code of \<^verbatim>\<open>threshold_otsu\<close> is missing).\<close>

fun cumsum_from :: "rat \<Rightarrow> rat list \<Rightarrow> rat list" where
  "cumsum_from acc [] = []"
| "cumsum_from acc (x # xs) = (acc + x) # cumsum_from (acc + x) xs"

text \<open>Modelled from the spec: the running sums of a list (the code of
  \<^verbatim>\<open>threshold_otsu\<close> is missing).\<close>

definition cumsum :: "rat list \<Rightarrow> rat list" where
  "cumsum xs = cumsum_from 0 xs"

text \<open>Modelled from the spec: the histogram of \<^verbatim>\<open>threshold_otsu\<close>, whose code is
  missing, has \<open>nbins\<close> bins of equal width between the least and the greatest value;
  this is the left edge of bin \<open>k\<close>.\<close>

definition bin_edge :: "nat \<Rightarrow> rat list \<Rightarrow> nat \<Rightarrow> rat" where
  "bin_edge nbins xs k =
     Min (set xs) + of_nat k * (Max (set xs) - Min (set xs)) / of_nat nbins"

text \<open>Modelled from the spec: membership in bin \<open>k\<close> of the histogram of
  \<^verbatim>\<open>threshold_otsu\<close>, whose code is missing; the last bin is closed on the right.\<close>

definition in_bin :: "nat \<Rightarrow> rat list \<Rightarrow> nat \<Rightarrow> rat \<Rightarrow> bool" where
  "in_bin nbins xs k x \<longleftrightarrow>
     bin_edge nbins xs k \<le> x \<and>
     (if Suc k = nbins then x \<le> bin_edge nbins xs (Suc k) else x < bin_edge nbins xs (Suc k))"

text \<open>Modelled from the spec: the histogram of \<^verbatim>\<open>threshold_otsu\<close>, whose code is
  missing: the count and the centre of every bin.\<close>

definition histogram :: "nat \<Rightarrow> rat list \<Rightarrow> rat list \<times> rat list" where
  "histogram nbins xs =
     (map (\<lambda>k. of_nat (length (filter (in_bin nbins xs k) xs))) [0..<nbins],
      map (\<lambda>k. (bin_edge nbins xs k + bin_edge nbins xs (Suc k)) / 2) [0..<nbins])"

text \<open>Modelled from the spec: the position of the first greatest element, for the
  split chosen by \<^verbatim>\<open>threshold_otsu\<close>, whose code is missing.\<close>

fun argmax_from :: "nat \<Rightarrow> rat \<Rightarrow> nat \<Rightarrow> rat list \<Rightarrow> nat" where
  "argmax_from best bv i [] = best"
| "argmax_from best bv i (x # xs) =
     (if x > bv then argmax_from i x (Suc i) xs else argmax_from best bv (Suc i) xs)"

text \<open>Modelled from the spec: the position of the first greatest element of a list
  (the code of \<^verbatim>\<open>threshold_otsu\<close> is missing).\<close>

definition argmax :: "rat list \<Rightarrow> nat" where
  "argmax xs = (case xs of [] \<Rightarrow> 0 | x # rest \<Rightarrow> argmax_from 0 x 1 rest)"

text \<open>Modelled from the spec: the between-class variance of every split of the
  histogram of \<^verbatim>\<open>threshold_otsu\<close>, whose code is missing: the product of the two class
  weights and of the squared difference of the two class means.\<close>

definition variance12 :: "rat list \<Rightarrow> rat list \<Rightarrow> rat list" where
  "variance12 counts bin_centers =
     (let weight1 = cumsum counts;
          weight2 = rev (cumsum (rev counts));
          cb = map2 (*) counts bin_centers;
          mean1 = map2 (/) (cumsum cb) weight1;
          mean2 = rev (map2 (/) (cumsum (rev cb)) (rev weight2))
      in map (\<lambda>(w1, w2, m1, m2). w1 * w2 * (m1 - m2)\<^sup>2)
           (zip (butlast weight1) (zip (tl weight2) (zip (butlast mean1) (tl mean2)))))"

text \<open>Modelled from the spec: the threshold of \<^verbatim>\<open>threshold_otsu\<close>, whose code is
  missing, on peaks that are not all identical: the centre of the bin after which the
  split has the greatest between-class variance.\<close>

definition otsu_separation :: "nat \<Rightarrow> rat list \<Rightarrow> rat" where
  "otsu_separation nbins xs =
     (case histogram nbins xs of
        (counts, bin_centers) \<Rightarrow> bin_centers ! argmax (variance12 counts bin_centers))"

text \<open>Modelled from the spec: \<^verbatim>\<open>threshold_otsu\<close>, whose code is missing, fails with
  DegenerateInputError when all peak intensities are identical (or there is none) and
  returns the separating threshold otherwise.\<close>

definition threshold_otsu :: "nat \<Rightarrow> rat list \<Rightarrow> error + rat" where
  "threshold_otsu nbins img =
     (if list_all (\<lambda>p. p = hd img) img then Inl DegenerateInputError
      else Inr (otsu_separation nbins img))"

section \<open>Notions used to state the properties\<close>

text \<open>The weak list of a run of approach 1 (empty when the run failed).\<close>

definition weak_of :: "error + (nat list \<times> nat list \<times> rat) \<Rightarrow> nat list" where
  "weak_of res = (case res of Inl e \<Rightarrow> [] | Inr (strong_spectra, weak_spectra, t) \<Rightarrow> weak_spectra)"

text \<open>
  The two index lists of a classifier run on \<open>n\<close> rows form a partition: no index in
  both, every index below \<open>n\<close> in one of them, none twice.
\<close>

definition is_partition :: "nat \<Rightarrow> nat list \<Rightarrow> nat list \<Rightarrow> bool" where
  "is_partition n strong weak \<longleftrightarrow>
     set strong \<inter> set weak = {} \<and> set strong \<union> set weak = {0..<n} \<and> distinct (strong @ weak)"

text \<open>The interpolation inside \<open>quantile\<close>, at position \<open>h\<close> of a sorted list.\<close>

definition interp :: "rat list \<Rightarrow> rat \<Rightarrow> rat" where
  "interp s h = (if nat \<lfloor>h\<rfloor> + 1 < length s
                 then s ! nat \<lfloor>h\<rfloor> + (s ! (nat \<lfloor>h\<rfloor> + 1) - s ! nat \<lfloor>h\<rfloor>) * (h - of_int \<lfloor>h\<rfloor>)
                 else s ! (length s - 1))"

text \<open>
  For approach 2: the numbers of a column; the test of the first loop (some value of
  the column lies strictly outside the bounds); the rows that the second loop collects
  from the columns that passed the first.
\<close>

definition nums :: "nat \<Rightarrow> cell list list \<Rightarrow> rat list" where
  "nums w df = map num_of (column w df)"

definition contributing :: "rat \<Rightarrow> rat \<Rightarrow> cell list list \<Rightarrow> nat \<Rightarrow> bool" where
  "contributing k_lo k_hi df w \<longleftrightarrow>
     list_ex (outside_strict (bounds k_lo k_hi (nums w df))) (nums w df)"

definition flagged :: "rat \<Rightarrow> rat \<Rightarrow> dataset \<Rightarrow> nat set" where
  "flagged k_lo k_hi ds =
     (\<Union>c \<in> {c \<in> set (wave_num ds). contributing k_lo k_hi (measurement_df ds) c}.
        {i. i < length (measurement_df ds) \<and>
            outside_or_on (bounds k_lo k_hi (nums c (measurement_df ds))) (nums c (measurement_df ds) ! i)})"

text \<open>
  The strong rows as the specification words them, for comparison with approach 2: the
  rows with a value strictly outside the bounds of its column, in some column.
\<close>

definition outlier_strong_spec :: "dataset \<Rightarrow> nat list" where
  "outlier_strong_spec ds =
     filter (\<lambda>i. list_ex (\<lambda>c. outside_strict (bounds 5 4 (nums c (measurement_df ds)))
                                  (nums c (measurement_df ds) ! i)) (wave_num ds))
            [0..<length (measurement_df ds)]"

text \<open>One cell of a dataframe replaced: row \<open>i\<close>, column position \<open>j\<close>.\<close>

definition set_cell :: "nat \<Rightarrow> nat \<Rightarrow> cell \<Rightarrow> cell list list \<Rightarrow> cell list list" where
  "set_cell i j c df = df[i := (df ! i)[j := c]]"

text \<open>
  For a list of intervals (start, end, count): each interval ends no later than the
  next one starts; each interval ends exactly where the next one starts; the sum of the
  counts.
\<close>

fun non_overlapping :: "(int \<times> int \<times> nat) list \<Rightarrow> bool" where
  "non_overlapping ((s1, e1, c1) # (s2, e2, c2) # rest) \<longleftrightarrow>
     e1 \<le> s2 \<and> non_overlapping ((s2, e2, c2) # rest)"
| "non_overlapping bs \<longleftrightarrow> True"

fun contiguous :: "(int \<times> int \<times> nat) list \<Rightarrow> bool" where
  "contiguous ((s1, e1, c1) # (s2, e2, c2) # rest) \<longleftrightarrow>
     e1 = s2 \<and> contiguous ((s2, e2, c2) # rest)"
| "contiguous bs \<longleftrightarrow> True"

definition total_count :: "(int \<times> int \<times> nat) list \<Rightarrow> nat" where
  "total_count bs = sum_list (map (\<lambda>(s, e, c). c) bs)"

text \<open>The intervals of an analysis run (none when the run failed).\<close>

definition buckets_of ::
  "error + ((int \<times> int \<times> nat) list \<times> (int option \<times> rat option) list) \<Rightarrow> (int \<times> int \<times> nat) list" where
  "buckets_of res = (case res of Inl e \<Rightarrow> [] | Inr (buckets, series) \<Rightarrow> buckets)"

section \<open>Example files\<close>

text \<open>
  Small measurement files with ten header columns, so that the first intensity column
  sits at column position 10 of the dataframe.
\<close>

definition ds_two :: dataset where
  "ds_two = \<lparr>header_labels = replicate 10 ''META'', header_columns = replicate 2 (replicate 10 ''x''),
             wavenumbers = [400, 401], intensities = [[-1, -3], [0, 1]]\<rparr>"

definition ds_three :: dataset where
  "ds_three = \<lparr>header_labels = replicate 10 ''META'', header_columns = replicate 2 (replicate 10 ''x''),
             wavenumbers = [400, 401], intensities = [[3, -3], [0, 1]]\<rparr>"

definition ds_negative :: dataset where
  "ds_negative = \<lparr>header_labels = replicate 10 ''META'', header_columns = replicate 2 (replicate 10 ''x''),
             wavenumbers = [400], intensities = [[-2], [-1]]\<rparr>"

definition ds_positive :: dataset where
  "ds_positive = \<lparr>header_labels = replicate 10 ''META'', header_columns = replicate 2 (replicate 10 ''x''),
             wavenumbers = [400, 401], intensities = [[1, 0], [2, 3]]\<rparr>"

definition ds_flat :: dataset where
  "ds_flat = \<lparr>header_labels = replicate 10 ''META'', header_columns = replicate 2 (replicate 10 ''x''),
             wavenumbers = [400, 401], intensities = [[3, 1], [2, 3]]\<rparr>"

text \<open>One wavenumber and five rows: constant but for one row, constant, and spread out.\<close>

definition ds_iqr0 :: dataset where
  "ds_iqr0 = \<lparr>header_labels = replicate 10 ''META'', header_columns = replicate 5 (replicate 10 ''x''),
             wavenumbers = [400], intensities = [[1], [1], [1], [1], [10]]\<rparr>"

definition ds_const :: dataset where
  "ds_const = \<lparr>header_labels = replicate 10 ''META'', header_columns = replicate 5 (replicate 10 ''x''),
             wavenumbers = [400], intensities = [[1], [1], [1], [1], [1]]\<rparr>"

definition ds_spread :: dataset where
  "ds_spread = \<lparr>header_labels = replicate 10 ''META'', header_columns = replicate 5 (replicate 10 ''x''),
             wavenumbers = [400], intensities = [[0], [1], [2], [3], [10]]\<rparr>"

text \<open>A measurement file and a media file whose wavenumber axes differ.\<close>

definition ds_measurement :: dataset where
  "ds_measurement = \<lparr>header_labels = replicate 10 ''META'', header_columns = replicate 2 (replicate 10 ''x''),
             wavenumbers = [400, 401, 402, 403], intensities = [[9, 2, 3, 4], [9, 2, 3, 5]]\<rparr>"

definition ds_media :: dataset where
  "ds_media = \<lparr>header_labels = replicate 10 ''META'', header_columns = replicate 1 (replicate 10 ''x''),
             wavenumbers = [500, 501, 502, 503, 504], intensities = [[7, 2, 3, 4, 8]]\<rparr>"

text \<open>
  A file with timestamps, and a parser for them that stands for \<^verbatim>\<open>pd.to_datetime\<close> on
  these strings: nanoseconds since the epoch, NaT for the empty string, an error
  otherwise.
\<close>

definition to_datetime_example :: "string \<Rightarrow> error + int option" where
  "to_datetime_example s =
     (if s = ''2023-01-01 00:01:00'' then Inr (Some 1672531260000000000)
      else if s = ''2023-01-01 00:04:00'' then Inr (Some 1672531440000000000)
      else if s = ''2023-01-01 00:11:00'' then Inr (Some 1672531860000000000)
      else if s = ''2023-01-01 00:25:00'' then Inr (Some 1672532700000000000)
      else if s = [] then Inr None
      else Inl ValueError)"

definition ds_times :: dataset where
  "ds_times = \<lparr>header_labels = ''DateTime'' # replicate 9 ''META'',
              header_columns = [''2023-01-01 00:01:00'' # replicate 9 ''x'',
                                ''2023-01-01 00:04:00'' # replicate 9 ''x'',
                                ''2023-01-01 00:11:00'' # replicate 9 ''x'',
                                ''2023-01-01 00:25:00'' # replicate 9 ''x''],
              wavenumbers = [400, 401],
              intensities = [[-1, -3], [-2, -1], [0, 1], [-1, -1]]\<rparr>"

section \<open>Properties of approach 1\<close>

lemma classify_loop_eq:
  "classify_loop t ps (s, w) =
     (s @ map fst (filter (\<lambda>(i, p). p \<ge> t) ps), w @ map fst (filter (\<lambda>(i, p). \<not> p \<ge> t) ps))"
  by (induction ps arbitrary: s w) auto

lemma map_fst_filter_enumerate:
  "map fst (filter (\<lambda>(i, p). P p) (enumerate n ps)) = filter (\<lambda>i. P (ps ! (i - n))) [n..<n + length ps]"
proof (induction ps arbitrary: n)
  case Nil
  then show ?case by simp
next
  case (Cons p ps)
  have upt: "[n..<n + length (p # ps)] = n # [Suc n..<Suc n + length ps]"
    by (simp add: upt_conv_Cons del: upt_Suc)
  have "filter (\<lambda>i. P ((p # ps) ! (i - n))) [Suc n..<Suc n + length ps]
        = filter (\<lambda>i. P (ps ! (i - Suc n))) [Suc n..<Suc n + length ps]"
    by (rule filter_cong) (auto simp: nth_Cons')
  then have "filter (\<lambda>i. P ((p # ps) ! (i - n))) [n..<n + length (p # ps)]
        = (if P p then [n] else []) @ filter (\<lambda>i. P (ps ! (i - Suc n))) [Suc n..<Suc n + length ps]"
    unfolding upt by simp
  moreover have "map fst (filter (\<lambda>(i, p). P p) (enumerate n (p # ps)))
        = (if P p then [n] else []) @ map fst (filter (\<lambda>(i, p). P p) (enumerate (Suc n) ps))"
    by simp
  ultimately show ?case
    using Cons.IH [of "Suc n"] by simp
qed

lemma classify_loop_enumerate:
  "classify_loop t (enumerate 0 ps) ([], []) =
     (filter (\<lambda>i. ps ! i \<ge> t) [0..<length ps], filter (\<lambda>i. ps ! i < t) [0..<length ps])"
  using map_fst_filter_enumerate [of "\<lambda>p. p \<ge> t" 0 ps]
        map_fst_filter_enumerate [of "\<lambda>p. \<not> p \<ge> t" 0 ps]
  by (simp add: classify_loop_eq not_le)

section \<open>Properties of the threshold model\<close>

lemma cumsum_from_length: "length (cumsum_from acc xs) = length xs"
  by (induction xs arbitrary: acc) auto

lemma argmax_from_less: "best < i \<Longrightarrow> argmax_from best bv i xs < i + length xs"
proof (induction xs arbitrary: best bv i)
  case Nil
  then show ?case by simp
next
  case (Cons x xs)
  have "argmax_from i x (Suc i) xs < Suc i + length xs"
    by (rule Cons.IH) simp
  moreover have "argmax_from best bv (Suc i) xs < Suc i + length xs"
    by (rule Cons.IH) (use Cons.prems in simp)
  ultimately show ?case by simp
qed

lemma argmax_less: "argmax xs < max 1 (length xs)"
proof (cases xs)
  case Nil
  then show ?thesis by (simp add: argmax_def)
next
  case (Cons x rest)
  have "argmax_from 0 x 1 rest < 1 + length rest"
    by (rule argmax_from_less) simp
  with Cons show ?thesis by (simp add: argmax_def)
qed

lemma variance12_length: "length (variance12 counts bin_centers) \<le> length counts - 1"
  by (simp add: variance12_def Let_def cumsum_def cumsum_from_length)

lemma otsu_index: "0 < nbins \<Longrightarrow> argmax (variance12 (fst (histogram nbins xs)) (snd (histogram nbins xs))) < nbins"
proof -
  assume n: "0 < nbins"
  let ?v = "variance12 (fst (histogram nbins xs)) (snd (histogram nbins xs))"
  have "length ?v \<le> nbins - 1"
    using variance12_length [of "fst (histogram nbins xs)" "snd (histogram nbins xs)"]
    by (simp add: histogram_def)
  moreover have "argmax ?v < max 1 (length ?v)" by (rule argmax_less)
  ultimately show ?thesis using n by (auto simp: max_def split: if_splits)
qed

lemma bin_center_bounds:
  assumes "lo < hi" "k < nbins"
  shows "lo < ((lo + of_nat k * (hi - lo) / of_nat nbins) + (lo + of_nat (Suc k) * (hi - lo) / of_nat nbins)) / 2"
    and "((lo + of_nat k * (hi - lo) / of_nat nbins) + (lo + of_nat (Suc k) * (hi - lo) / of_nat nbins)) / 2 < (hi::rat)"
proof -
  define n :: rat where "n = of_nat nbins"
  define w where "w = (hi - lo) / n"
  define j :: rat where "j = of_nat k"
  have n: "0 < n" using assms by (simp add: n_def)
  have w: "0 < w" using assms n by (simp add: w_def)
  have j: "0 \<le> j" "j + 1 \<le> n"
    using assms(2) by (simp_all add: j_def n_def flip: of_nat_Suc)
  have nw: "n * w = hi - lo" using n by (simp add: w_def)
  have e: "of_nat k * (hi - lo) / of_nat nbins = j * w" "of_nat (Suc k) * (hi - lo) / of_nat nbins = (j + 1) * w"
    by (simp_all add: w_def j_def n_def)
  have c: "((lo + j * w) + (lo + (j + 1) * w)) / 2 = lo + (j + 1/2) * w"
    by (simp add: algebra_simps)
  have "0 < (j + 1/2) * w" using w j by (simp add: add_nonneg_pos)
  then show "lo < ((lo + of_nat k * (hi - lo) / of_nat nbins) + (lo + of_nat (Suc k) * (hi - lo) / of_nat nbins)) / 2"
    unfolding e c by simp
  have "j + 1/2 < n" using j by simp
  then have "(j + 1/2) * w < n * w" using w by (rule mult_strict_right_mono)
  then have "lo + (j + 1/2) * w < hi" unfolding nw by simp
  then show "((lo + of_nat k * (hi - lo) / of_nat nbins) + (lo + of_nat (Suc k) * (hi - lo) / of_nat nbins)) / 2 < hi"
    unfolding e c .
qed

lemma not_all_equal_Min_less_Max:
  assumes "\<not> list_all (\<lambda>p. p = hd img) img"
  shows "Min (set img) < Max (set (img :: rat list))"
proof -
  from assms obtain p where p: "p \<in> set img" "p \<noteq> hd img"
    by (auto simp: list_all_iff)
  then have ne: "img \<noteq> []" by auto
  then have h: "hd img \<in> set img" by simp
  have "Min (set img) \<le> p" "Min (set img) \<le> hd img" "p \<le> Max (set img)" "hd img \<le> Max (set img)"
    using p h by simp_all
  with p(2) show ?thesis by linarith
qed

lemma otsu_separation_bounds:
  assumes "0 < nbins" "\<not> list_all (\<lambda>p. p = hd img) img"
  shows "Min (set img) < otsu_separation nbins img \<and> otsu_separation nbins img < Max (set img)"
proof -
  let ?k = "argmax (variance12 (fst (histogram nbins img)) (snd (histogram nbins img)))"
  have k: "?k < nbins" using assms(1) by (rule otsu_index)
  have lh: "Min (set img) < Max (set img)" using assms(2) by (rule not_all_equal_Min_less_Max)
  have t: "otsu_separation nbins img = snd (histogram nbins img) ! ?k"
    by (simp add: otsu_separation_def split: prod.splits)
  have "snd (histogram nbins img) ! ?k = (bin_edge nbins img ?k + bin_edge nbins img (Suc ?k)) / 2"
    using k by (simp add: histogram_def)
  with bin_center_bounds [OF lh k] t show ?thesis
    by (simp add: bin_edge_def)
qed

section \<open>The threshold classifier\<close>

lemma peak_intensities_Inr:
  "peak_intensities ds = Inr p \<Longrightarrow> p = map (\<lambda>row. Max (set row)) (intensities ds)"
  by (auto simp: peak_intensities_def split: if_splits)

lemma approach1_relax_eq:
  assumes "peak_intensities ds = Inr p" "otsu p = Inr t"
  shows "approach1_relax otsu r ds =
           Inr (filter (\<lambda>i. p ! i \<ge> t * r) [0..<length p],
                filter (\<lambda>i. p ! i < t * r) [0..<length p], t * r)"
  using assms by (simp add: approach1_relax_def classify_loop_enumerate Let_def)

text \<open>
  Claim C3. The threshold classifier takes the peak of every row (the maximum of the
  row), obtains the threshold \<open>t\<close> from the Otsu call on the peaks, relaxes it to
  \<open>t * 0.715\<close>, and puts row \<open>i\<close> in the strong list when its peak is at least the
  relaxed threshold and in the weak list when it is below.
\<close>

theorem C3_threshold_classifier_rule:
  assumes "peak_intensities ds = Inr p" "otsu p = Inr t"
  shows "length p = length (intensities ds) \<and>
         (\<forall>i < length p. p ! i = Max (set (intensities ds ! i))) \<and>
         approach1 otsu ds =
           Inr (filter (\<lambda>i. p ! i \<ge> t * (715 / 1000)) [0..<length p],
                filter (\<lambda>i. p ! i < t * (715 / 1000)) [0..<length p],
                t * (715 / 1000))"
  using assms peak_intensities_Inr [OF assms(1)]
  by (simp add: approach1_def approach1_relax_eq)

lemma peaks_two: "peak_intensities ds_two = Inr [-1, 1]"
  by (simp add: peak_intensities_def ds_two_def)

lemma otsu_two: "threshold_otsu 256 [-1, 1] = Inr (otsu_separation 256 [-1, 1])"
  by (simp add: threshold_otsu_def)

lemma otsu_two_bounds: "-1 < otsu_separation 256 [-1, 1] \<and> otsu_separation 256 [-1, 1] < 1"
  using otsu_separation_bounds [of 256 "[-1, 1]"] by simp

theorem C3_threshold_classifier_rule_witness:
  "peak_intensities ds_two = Inr [-1, 1] \<and>
   threshold_otsu 256 [-1, 1] = Inr (otsu_separation 256 [-1, 1]) \<and>
   approach1 (threshold_otsu 256) ds_two =
     Inr ([1], [0], otsu_separation 256 [-1, 1] * (715 / 1000))"
proof -
  define t where "t = otsu_separation 256 [-1, 1]"
  define thr where "thr = t * (715 / 1000)"
  have b: "-1 < t" "t < 1" using otsu_two_bounds by (simp_all add: t_def)
  have c: "\<not> thr \<le> -1" "thr \<le> 1" "-1 < thr" "\<not> 1 < thr" using b by (simp_all add: thr_def)
  have two: "[0..<length [-1, 1 :: rat]] = [0, 1]" by (simp add: upt_rec)
  have s: "filter (\<lambda>i. [-1, 1] ! i \<ge> thr) [0..<length [-1, 1 :: rat]] = [1]"
    unfolding two using c by simp
  have w: "filter (\<lambda>i. [-1, 1] ! i < thr) [0..<length [-1, 1 :: rat]] = [0]"
    unfolding two using c by simp
  have o: "threshold_otsu 256 [-1, 1] = Inr t" using otsu_two by (simp add: t_def)
  from C3_threshold_classifier_rule [of ds_two "[-1, 1]" "threshold_otsu 256" t, OF peaks_two o]
  have "approach1 (threshold_otsu 256) ds_two =
          Inr (filter (\<lambda>i. [-1, 1] ! i \<ge> thr) [0..<length [-1, 1 :: rat]],
               filter (\<lambda>i. [-1, 1] ! i < thr) [0..<length [-1, 1 :: rat]], thr)"
    unfolding thr_def by (elim conjE)
  then have "approach1 (threshold_otsu 256) ds_two = Inr ([1], [0], thr)"
    unfolding s w .
  with peaks_two o show ?thesis
    by (simp add: t_def thr_def)
qed

text \<open>
  Claim C9. When the peak intensities are all identical the threshold call fails with
  DegenerateInputError, and the threshold classifier, which has no handler around the
  call, fails with it instead of returning a partition.
\<close>

theorem C9_identical_peaks_fail:
  assumes "peak_intensities ds = Inr p" "list_all (\<lambda>x. x = hd p) p"
  shows "approach1 (threshold_otsu nbins) ds = Inl DegenerateInputError"
  using assms by (simp add: approach1_def approach1_relax_def threshold_otsu_def)

theorem C9_identical_peaks_fail_witness:
  "peak_intensities ds_flat = Inr [3, 3] \<and> list_all (\<lambda>x. x = hd [3, 3 :: rat]) [3, 3] \<and>
   approach1 (threshold_otsu 256) ds_flat = Inl DegenerateInputError"
proof -
  have p: "peak_intensities ds_flat = Inr [3, 3]"
    by (simp add: peak_intensities_def ds_flat_def)
  have a: "list_all (\<lambda>x. x = hd [3, 3 :: rat]) [3, 3]" by simp
  from C9_identical_peaks_fail [OF p a, of 256] p a show ?thesis by simp
qed

section \<open>The relax factor\<close>

lemma weak_of_relax:
  assumes "peak_intensities ds = Inr p" "otsu p = Inr t"
  shows "weak_of (approach1_relax otsu r ds) = filter (\<lambda>i. p ! i < t * r) [0..<length p]"
  using approach1_relax_eq [of ds p otsu t r] assms by (simp add: weak_of_def)

text \<open>
  Claim C7, amended. When the Otsu threshold \<open>t\<close> is not negative, raising the relax
  factor from \<open>r1\<close> to \<open>r2\<close> keeps every weak row weak, so the weak list does not get
  shorter. (For a negative \<open>t\<close> the relaxed threshold \<open>t * r\<close> falls as \<open>r\<close> rises.)
\<close>

theorem C7_relax_monotone_nonneg:
  assumes "peak_intensities ds = Inr p" "otsu p = Inr t" "0 \<le> t" "r1 \<le> r2"
  shows "set (weak_of (approach1_relax otsu r1 ds)) \<subseteq> set (weak_of (approach1_relax otsu r2 ds)) \<and>
         length (weak_of (approach1_relax otsu r1 ds)) \<le> length (weak_of (approach1_relax otsu r2 ds))"
proof -
  have m: "t * r1 \<le> t * r2" using assms(3,4) by (rule mult_left_mono [rotated])
  let ?w1 = "filter (\<lambda>i. p ! i < t * r1) [0..<length p]"
  let ?w2 = "filter (\<lambda>i. p ! i < t * r2) [0..<length p]"
  have e: "?w1 = filter (\<lambda>i. p ! i < t * r1) ?w2"
    using m by (auto intro!: filter_cong simp: )
  have "set ?w1 \<subseteq> set ?w2" using m by auto
  moreover have "length ?w1 \<le> length ?w2"
    by (subst e) (rule length_filter_le)
  ultimately show ?thesis
    by (simp only: weak_of_relax [of ds p otsu t, OF assms(1,2)])
qed

lemma peaks_positive: "peak_intensities ds_positive = Inr [1, 3]"
  by (simp add: peak_intensities_def ds_positive_def)

lemma otsu_positive: "threshold_otsu 256 [1, 3] = Inr (otsu_separation 256 [1, 3])"
  by (simp add: threshold_otsu_def)

lemma otsu_positive_bounds: "1 < otsu_separation 256 [1, 3] \<and> otsu_separation 256 [1, 3] < 3"
  using otsu_separation_bounds [of 256 "[1, 3]"] by simp

theorem C7_relax_monotone_nonneg_witness:
  "peak_intensities ds_positive = Inr [1, 3] \<and>
   threshold_otsu 256 [1, 3] = Inr (otsu_separation 256 [1, 3]) \<and>
   0 \<le> otsu_separation 256 [1, 3] \<and> (715 / 1000 :: rat) \<le> 1 \<and>
   set (weak_of (approach1_relax (threshold_otsu 256) (715 / 1000) ds_positive))
     \<subseteq> set (weak_of (approach1_relax (threshold_otsu 256) 1 ds_positive)) \<and>
   length (weak_of (approach1_relax (threshold_otsu 256) (715 / 1000) ds_positive))
     \<le> length (weak_of (approach1_relax (threshold_otsu 256) 1 ds_positive))"
proof -
  have t: "0 \<le> otsu_separation 256 [1, 3]" using otsu_positive_bounds by simp
  have r: "(715 / 1000 :: rat) \<le> 1" by simp
  from C7_relax_monotone_nonneg [of ds_positive "[1, 3]" "threshold_otsu 256", OF peaks_positive otsu_positive t r]
    peaks_positive otsu_positive t r
  show ?thesis by simp
qed

lemma peaks_negative: "peak_intensities ds_negative = Inr [-2, -1]"
  by (simp add: peak_intensities_def ds_negative_def)

lemma otsu_negative: "threshold_otsu 256 [-2, -1] = Inr (otsu_separation 256 [-2, -1])"
  by (simp add: threshold_otsu_def)

lemma otsu_negative_bounds: "-2 < otsu_separation 256 [-2, -1] \<and> otsu_separation 256 [-2, -1] < -1"
  using otsu_separation_bounds [of 256 "[-2, -1]"] by simp

lemma weak_negative_half:
  "weak_of (approach1_relax (threshold_otsu 256) (1 / 2) ds_negative) = [0, 1]"
proof -
  define thr where "thr = otsu_separation 256 [-2, -1] * (1 / 2)"
  have c: "-2 < thr" "-1 < thr" using otsu_negative_bounds by (simp_all add: thr_def)
  have two: "[0..<length [-2, -1 :: rat]] = [0, 1]" by (simp add: upt_rec)
  have "filter (\<lambda>i. [-2, -1] ! i < thr) [0..<length [-2, -1 :: rat]] = [0, 1]"
    unfolding two using c by simp
  then show ?thesis
    unfolding thr_def weak_of_relax [of ds_negative "[-2, -1]" "threshold_otsu 256", OF peaks_negative otsu_negative] .
qed

lemma weak_negative_one:
  "weak_of (approach1_relax (threshold_otsu 256) 1 ds_negative) = [0]"
proof -
  define thr where "thr = otsu_separation 256 [-2, -1] * 1"
  have c: "-2 < thr" "\<not> -1 < thr" using otsu_negative_bounds by (simp_all add: thr_def)
  have two: "[0..<length [-2, -1 :: rat]] = [0, 1]" by (simp add: upt_rec)
  have "filter (\<lambda>i. [-2, -1] ! i < thr) [0..<length [-2, -1 :: rat]] = [0]"
    unfolding two using c by simp
  then show ?thesis
    unfolding thr_def weak_of_relax [of ds_negative "[-2, -1]" "threshold_otsu 256", OF peaks_negative otsu_negative] .
qed

text \<open>
  Claim C7 as stated fails on a file whose intensities are all negative: with the peaks
  \<open>-2\<close> and \<open>-1\<close> the threshold lies strictly between them, both rows are weak with
  \<open>r = 1/2\<close> and only the first row is weak with \<open>r = 1\<close>.
\<close>

theorem C7_relax_monotone_counterexample:
  "(1 / 2 :: rat) \<le> 1 \<and> (1 :: rat) \<le> 1 \<and>
   \<not> length (weak_of (approach1_relax (threshold_otsu 256) (1 / 2) ds_negative))
       \<le> length (weak_of (approach1_relax (threshold_otsu 256) 1 ds_negative))"
  by (simp add: weak_negative_half weak_negative_one)

section \<open>Quartiles\<close>

lemma quantile_Some:
  "quantile xs q = Some v \<Longrightarrow> xs \<noteq> []"
  by (auto simp: quantile_def split: if_splits)

lemma quantile_interp:
  "xs \<noteq> [] \<Longrightarrow> quantile xs q = Some (interp (sort xs) (of_nat (length xs - 1) * q))"
  unfolding quantile_def interp_def Let_def
  by (simp only: length_sort if_False)

lemma frac_bounds: "0 \<le> h - of_int \<lfloor>h\<rfloor>" "h - of_int \<lfloor>h\<rfloor> < (1::rat)"
  by linarith+

lemma interp_lower:
  assumes "sorted s" "0 \<le> h" "nat \<lfloor>h\<rfloor> < length s"
  shows "s ! nat \<lfloor>h\<rfloor> \<le> interp s h"
proof (cases "nat \<lfloor>h\<rfloor> + 1 < length s")
  case True
  have "s ! nat \<lfloor>h\<rfloor> \<le> s ! (nat \<lfloor>h\<rfloor> + 1)"
    using assms(1) True by (simp add: sorted_iff_nth_mono)
  then have "0 \<le> (s ! (nat \<lfloor>h\<rfloor> + 1) - s ! nat \<lfloor>h\<rfloor>) * (h - of_int \<lfloor>h\<rfloor>)"
    using frac_bounds(1) [of h] by simp
  with True show ?thesis by (simp add: interp_def)
next
  case False
  with assms(3) have "nat \<lfloor>h\<rfloor> = length s - 1" by simp
  with False show ?thesis by (simp add: interp_def)
qed

lemma interp_upper:
  assumes "sorted s" "0 \<le> h" "nat \<lfloor>h\<rfloor> + 1 < length s"
  shows "interp s h \<le> s ! (nat \<lfloor>h\<rfloor> + 1)"
proof -
  let ?a = "s ! nat \<lfloor>h\<rfloor>" and ?b = "s ! (nat \<lfloor>h\<rfloor> + 1)" and ?f = "h - of_int \<lfloor>h\<rfloor>"
  have ab: "?a \<le> ?b"
    using assms(1,3) by (simp add: sorted_iff_nth_mono)
  have "(?b - ?a) * ?f \<le> (?b - ?a) * 1"
    using ab frac_bounds(2) [of h] by (intro mult_left_mono) simp_all
  then show ?thesis using assms(3) by (simp add: interp_def)
qed

lemma interp_mono:
  assumes s: "sorted s" and h: "0 \<le> h1" "h1 \<le> h2" and n: "nat \<lfloor>h2\<rfloor> < length s"
  shows "interp s h1 \<le> interp s h2"
proof -
  let ?i1 = "nat \<lfloor>h1\<rfloor>" and ?i2 = "nat \<lfloor>h2\<rfloor>"
  have h2: "0 \<le> h2" using h by simp
  have le: "?i1 \<le> ?i2" using h by (simp add: floor_mono nat_mono)
  show ?thesis
  proof (cases "?i1 = ?i2")
    case True
    then have fl: "\<lfloor>h1\<rfloor> = \<lfloor>h2\<rfloor>" using h h2 by (metis floor_mono nat_eq_iff of_int_0_le_iff zero_le_floor le_floor_iff of_int_0  int_nat_eq)
    show ?thesis
    proof (cases "?i2 + 1 < length s")
      case t: True
      have "s ! ?i2 \<le> s ! (?i2 + 1)" using s t by (simp add: sorted_iff_nth_mono)
      then have "(s ! (?i2 + 1) - s ! ?i2) * (h1 - of_int \<lfloor>h2\<rfloor>) \<le> (s ! (?i2 + 1) - s ! ?i2) * (h2 - of_int \<lfloor>h2\<rfloor>)"
        using h by (intro mult_left_mono) simp_all
      with t True fl show ?thesis by (simp add: interp_def)
    next
      case False
      with True show ?thesis by (simp add: interp_def)
    qed
  next
    case False
    with le have lt: "?i1 + 1 \<le> ?i2" by simp
    then have "?i1 + 1 < length s" using n by simp
    then have "interp s h1 \<le> s ! (?i1 + 1)" using s h(1) by (intro interp_upper)
    also have "\<dots> \<le> s ! ?i2" using s lt n by (simp add: sorted_iff_nth_mono)
    also have "\<dots> \<le> interp s h2" using s h2 n by (rule interp_lower)
    finally show ?thesis .
  qed
qed

lemma quartiles_ordered:
  assumes "quantile xs (1 / 4) = Some q1" "quantile xs (3 / 4) = Some q3"
  shows "q1 \<le> q3"
proof -
  have ne: "xs \<noteq> []" using assms(1) by (rule quantile_Some)
  define m :: rat where "m = of_nat (length xs - 1)"
  define h1 where "h1 = m * (1 / 4)"
  define h3 where "h3 = m * (3 / 4)"
  have m: "0 \<le> m" by (simp add: m_def)
  have h: "0 \<le> h1" "h1 \<le> h3" "h3 \<le> m" using m by (simp_all add: h1_def h3_def)
  have "\<lfloor>h3\<rfloor> \<le> \<lfloor>m\<rfloor>" using h(3) by (rule floor_mono)
  also have "\<lfloor>m\<rfloor> = int (length xs - 1)" unfolding m_def by (rule floor_of_nat)
  finally have "nat \<lfloor>h3\<rfloor> \<le> length xs - 1" by simp
  moreover have "0 < length xs" using ne by simp
  ultimately have "nat \<lfloor>h3\<rfloor> < length xs" by linarith
  then have n: "nat \<lfloor>h3\<rfloor> < length (sort xs)" by simp
  have "interp (sort xs) h1 \<le> interp (sort xs) h3"
    using sorted_sort h(1,2) n by (rule interp_mono)
  moreover have "quantile xs (1 / 4) = Some (interp (sort xs) h1)"
    unfolding h1_def m_def using ne by (rule quantile_interp)
  moreover have "quantile xs (3 / 4) = Some (interp (sort xs) h3)"
    unfolding h3_def m_def using ne by (rule quantile_interp)
  ultimately show ?thesis using assms by simp
qed

section \<open>The outlier classifier\<close>

lemma outlier_loop_eq:
  "outlier_loop k_lo k_hi df ws acc =
     (if \<forall>w \<in> set ws. list_all is_Num (column w df)
      then Inr (acc @ filter (contributing k_lo k_hi df) ws)
      else Inl TypeError)"
proof (induction ws arbitrary: acc)
  case Nil
  then show ?case by simp
next
  case (Cons w ws)
  show ?case
  proof (cases "list_all is_Num (column w df)")
    case True
    then have n: "numeric_column (column w df) = Inr (nums w df)"
      by (simp add: numeric_column_def nums_def)
    have c: "(filter (outside_strict (bounds k_lo k_hi (nums w df))) (nums w df) = [])
              = (\<not> contributing k_lo k_hi df w)"
      by (auto simp: contributing_def list_ex_iff filter_empty_conv)
    show ?thesis using True by (simp add: n c Cons.IH)
  next
    case False
    then show ?thesis by (simp add: numeric_column_def)
  qed
qed

lemma strong_loop_eq:
  "strong_loop k_lo k_hi df cs acc =
     (if \<forall>c \<in> set cs. list_all is_Num (column c df)
      then Inr (acc @ concat (map (\<lambda>c. filtered_index (bounds k_lo k_hi (nums c df)) (nums c df)) cs))
      else Inl TypeError)"
proof (induction cs arbitrary: acc)
  case Nil
  then show ?case by simp
next
  case (Cons c cs)
  show ?case
  proof (cases "list_all is_Num (column c df)")
    case True
    then have n: "numeric_column (column c df) = Inr (nums c df)"
      by (simp add: numeric_column_def nums_def)
    show ?thesis using True by (simp add: n Cons.IH)
  next
    case False
    then show ?thesis by (simp add: numeric_column_def)
  qed
qed

lemma nums_length: "length (nums c df) = length df"
  by (simp add: nums_def column_def)

lemma approach2_fences_Inr:
  assumes "approach2_fences k_lo k_hi ds = Inr (s, w, out)"
  shows "out = filter (contributing k_lo k_hi (measurement_df ds)) (wave_num ds)"
    and "s = filter (\<lambda>i. i \<in> flagged k_lo k_hi ds) [0..<length (measurement_df ds)]"
    and "w = filter (\<lambda>i. i \<notin> flagged k_lo k_hi ds) [0..<length (measurement_df ds)]"
proof -
  let ?df = "measurement_df ds"
  from assms have num: "\<forall>w \<in> set (wave_num ds). list_all is_Num (column w ?df)"
    by (auto simp: approach2_fences_def Let_def outlier_loop_eq split: if_splits sum.splits)
  then have o: "outlier_loop k_lo k_hi ?df (wave_num ds) [] = Inr (filter (contributing k_lo k_hi ?df) (wave_num ds))"
    by (simp add: outlier_loop_eq)
  let ?out = "filter (contributing k_lo k_hi ?df) (wave_num ds)"
  let ?st = "concat (map (\<lambda>c. filtered_index (bounds k_lo k_hi (nums c ?df)) (nums c ?df)) ?out)"
  have st: "strong_loop k_lo k_hi ?df ?out [] = Inr ?st"
    using num by (simp add: strong_loop_eq)
  have fl: "set ?st = flagged k_lo k_hi ds"
    by (auto simp: flagged_def filtered_index_def nums_length)
  have eq: "approach2_fences k_lo k_hi ds =
              Inr (filter (\<lambda>i. i \<in> set ?st) [0..<length ?df],
                   filter (\<lambda>i. i \<notin> set ?st) [0..<length ?df], ?out)"
    by (simp add: approach2_fences_def Let_def o st)
  from assms show "out = ?out" unfolding eq by simp
  from assms show "s = filter (\<lambda>i. i \<in> flagged k_lo k_hi ds) [0..<length ?df]"
    unfolding eq fl by simp
  from assms show "w = filter (\<lambda>i. i \<notin> flagged k_lo k_hi ds) [0..<length ?df]"
    unfolding eq fl by simp
qed

lemma bounds_widen:
  assumes "k_lo \<le> k_lo'" "k_hi \<le> k_hi'"
    and "bounds k_lo' k_hi' col = Some (lo', hi')"
  shows "\<exists>lo hi. bounds k_lo k_hi col = Some (lo, hi) \<and> lo' \<le> lo \<and> hi \<le> hi'"
proof -
  from assms(3) obtain q1 q3 where q: "quantile col (1 / 4) = Some q1" "quantile col (3 / 4) = Some q3"
    and b: "lo' = q1 - k_lo' * (q3 - q1)" "hi' = q3 + k_hi' * (q3 - q1)"
    by (auto simp: bounds_def Let_def split: option.splits)
  have iqr: "0 \<le> q3 - q1" using quartiles_ordered [OF q] by simp
  have "k_lo * (q3 - q1) \<le> k_lo' * (q3 - q1)" "k_hi * (q3 - q1) \<le> k_hi' * (q3 - q1)"
    using assms(1,2) iqr by (simp_all add: mult_right_mono)
  with q b show ?thesis by (simp add: bounds_def Let_def)
qed

lemma outside_strict_widen:
  assumes "k_lo \<le> k_lo'" "k_hi \<le> k_hi'" "outside_strict (bounds k_lo' k_hi' col) v"
  shows "outside_strict (bounds k_lo k_hi col) v"
proof -
  from assms(3) obtain lo' hi' where b: "bounds k_lo' k_hi' col = Some (lo', hi')"
    by (cases "bounds k_lo' k_hi' col") auto
  from bounds_widen [OF assms(1,2) b] obtain lo hi
    where "bounds k_lo k_hi col = Some (lo, hi)" "lo' \<le> lo" "hi \<le> hi'" by blast
  with assms(3) b show ?thesis by auto
qed

lemma outside_or_on_widen:
  assumes "k_lo \<le> k_lo'" "k_hi \<le> k_hi'" "outside_or_on (bounds k_lo' k_hi' col) v"
  shows "outside_or_on (bounds k_lo k_hi col) v"
proof -
  from assms(3) obtain lo' hi' where b: "bounds k_lo' k_hi' col = Some (lo', hi')"
    by (cases "bounds k_lo' k_hi' col") auto
  from bounds_widen [OF assms(1,2) b] obtain lo hi
    where "bounds k_lo k_hi col = Some (lo, hi)" "lo' \<le> lo" "hi \<le> hi'" by blast
  with assms(3) b show ?thesis by auto
qed

lemma flagged_mono:
  assumes "k_lo \<le> k_lo'" "k_hi \<le> k_hi'"
  shows "flagged k_lo' k_hi' ds \<subseteq> flagged k_lo k_hi ds"
  unfolding flagged_def contributing_def list_ex_iff
  using outside_strict_widen [OF assms] outside_or_on_widen [OF assms]
  by blast

text \<open>
  Claim C8. With both multipliers raised, the rows that the outlier classifier labels
  strong are among the rows it labels strong with the smaller multipliers.
\<close>

theorem C8_wider_fences_fewer_strong:
  assumes "k_lo \<le> k_lo'" "k_hi \<le> k_hi'"
    and "approach2_fences k_lo k_hi ds = Inr (s, w, out)"
    and "approach2_fences k_lo' k_hi' ds = Inr (s', w', out')"
  shows "set s' \<subseteq> set s"
  using flagged_mono [OF assms(1,2), of ds]
  unfolding approach2_fences_Inr(2) [OF assms(3)] approach2_fences_Inr(2) [OF assms(4)]
  by auto

lemma spread_1_1: "approach2_fences 1 1 ds_spread = Inr ([4], [0, 1, 2, 3], [10])"
  by code_simp

lemma spread_5_4: "approach2_fences 5 4 ds_spread = Inr ([], [0, 1, 2, 3, 4], [])"
  by code_simp

theorem C8_wider_fences_fewer_strong_witness:
  "(1::rat) \<le> 5 \<and> (1::rat) \<le> 4 \<and>
   approach2_fences 1 1 ds_spread = Inr ([4], [0, 1, 2, 3], [10]) \<and>
   approach2_fences 5 4 ds_spread = Inr ([], [0, 1, 2, 3, 4], []) \<and>
   set ([] :: nat list) \<subseteq> set [4]"
  using C8_wider_fences_fewer_strong [of 1 5 1 4 ds_spread "[4]" "[0, 1, 2, 3]" "[10]" "[]" "[0, 1, 2, 3, 4]" "[]"]
    spread_1_1 spread_5_4
  by simp

text \<open>
  Claim C2, evaluated where the code departs from it. The column \<open>1, 1, 1, 1, 10\<close> has
  both quartiles equal to \<open>1\<close>, so both bounds are \<open>1\<close>. Only the last row lies strictly
  outside, and the first loop lists the column for it; the second loop filters with
  \<^verbatim>\<open><=\<close> and \<^verbatim>\<open>>=\<close> and collects every row. The strong rows of the claim are the last
  row alone.
\<close>

theorem C2_outlier_strong_on_constant_quartiles:
  "approach2 ds_iqr0 = Inr ([0, 1, 2, 3, 4], [], [10]) \<and> outlier_strong_spec ds_iqr0 = [4]"
  by code_simp

section \<open>The reference-match classifier\<close>

lemma mask_length: "length (mask df media_df) = length df"
  by (simp add: mask_def iloc_from_def)

lemma approach3_eq:
  "approach3 ds media =
     Inr (filter (\<lambda>i. mask (measurement_df ds) (measurement_df media) ! i) [0..<length (measurement_df ds)],
          filter (\<lambda>i. \<not> mask (measurement_df ds) (measurement_df media) ! i) [0..<length (measurement_df ds)])"
  by (simp add: approach3_def Let_def mask_length)



lemma approach3_example: "approach3 ds_measurement ds_media = Inr ([1], [0])"
  by code_simp



text \<open>
  Claim C6 as stated fails: the two example files have wavenumber axes of different
  length and values, and the classifier returns a partition.
\<close>

theorem C6_axis_mismatch_counterexample:
  "wavenumbers ds_measurement \<noteq> wavenumbers ds_media \<and>
   length (wavenumbers ds_measurement) \<noteq> length (wavenumbers ds_media) \<and>
   approach3 ds_measurement ds_media = Inr ([1], [0]) \<and>
   approach3 ds_measurement ds_media \<noteq> Inl AxisMismatchError"
  by (simp add: approach3_example) (simp add: ds_measurement_def ds_media_def)

lemma measurement_df_wavenumbers: "measurement_df (ds\<lparr>wavenumbers := a\<rparr>) = measurement_df ds"
  by (simp add: measurement_df_def)

text \<open>
  Claim C6, amended. The reference-match classifier never compares the wavenumber axes:
  it returns a partition for every pair of files, the same one whatever the two axes
  are, and raises no error.
\<close>

theorem C6_no_axis_check:
  "approach3 (ds\<lparr>wavenumbers := a\<rparr>) (media\<lparr>wavenumbers := b\<rparr>) = approach3 ds media \<and>
   approach3 ds media \<noteq> Inl e \<and>
   approach3 ds media =
     Inr (filter (\<lambda>i. mask (measurement_df ds) (measurement_df media) ! i) [0..<length (measurement_df ds)],
          filter (\<lambda>i. \<not> mask (measurement_df ds) (measurement_df media) ! i) [0..<length (measurement_df ds)])"
  by (simp add: approach3_eq measurement_df_wavenumbers)

section \<open>Column position 10\<close>

lemma iloc_from_11_set_cell: "iloc_from 11 (set_cell i 10 c df) = iloc_from 11 df"
proof (cases "i < length df")
  case True
  have "map (drop 11) (df[i := (df ! i)[10 := c]]) = (map (drop 11) df)[i := drop 11 ((df ! i)[10 := c])]"
    by (rule map_update)
  also have "drop 11 ((df ! i)[10 := c]) = drop 11 (df ! i)"
    by (rule drop_update_cancel) simp
  also have "(map (drop 11) df)[i := drop 11 (df ! i)] = map (drop 11) df"
    using True by (simp add: list_update_same_conv)
  finally show ?thesis by (simp add: iloc_from_def set_cell_def)
next
  case False
  then have "df[i := (df ! i)[10 := c]] = df" by (simp add: list_update_beyond)
  then show ?thesis by (simp add: iloc_from_def set_cell_def)
qed

lemma const_5_4: "approach2 ds_const = Inr ([], [0, 1, 2, 3, 4], [])"
  by code_simp

lemma iqr0_result: "approach2 ds_iqr0 = Inr ([0, 1, 2, 3, 4], [], [10])"
  by code_simp

lemma const_is_update: "measurement_df ds_iqr0 = set_cell 4 10 (Num 10) (measurement_df ds_const)"
  by code_simp

lemma three_is_update: "measurement_df ds_three = set_cell 0 10 (Num 3) (measurement_df ds_two)"
  by code_simp

lemma peaks_three: "peak_intensities ds_three = Inr [3, 1]"
  by (simp add: peak_intensities_def ds_three_def)

lemma otsu_three: "threshold_otsu 256 [3, 1] = Inr (otsu_separation 256 [3, 1])"
  by (simp add: threshold_otsu_def)

lemma otsu_three_bounds: "1 < otsu_separation 256 [3, 1] \<and> otsu_separation 256 [3, 1] < 3"
  using otsu_separation_bounds [of 256 "[3, 1]"] by simp

lemma weak_three: "0 \<notin> set (weak_of (approach1 (threshold_otsu 256) ds_three))"
proof -
  define thr where "thr = otsu_separation 256 [3, 1] * (715 / 1000)"
  have c: "\<not> 3 < thr" using otsu_three_bounds by (simp add: thr_def)
  have two: "[0..<length [3, 1 :: rat]] = [0, 1]" by (simp add: upt_rec)
  have "0 \<notin> set (filter (\<lambda>i. [3, 1] ! i < thr) [0..<length [3, 1 :: rat]])"
    unfolding two using c by simp
  then show ?thesis
    unfolding thr_def approach1_def
      weak_of_relax [of ds_three "[3, 1]" "threshold_otsu 256", OF peaks_three otsu_three] .
qed

lemma weak_two: "weak_of (approach1 (threshold_otsu 256) ds_two) = [0]"
proof -
  define thr where "thr = otsu_separation 256 [-1, 1] * (715 / 1000)"
  have c: "-1 < thr" "\<not> 1 < thr" using otsu_two_bounds by (simp_all add: thr_def)
  have two: "[0..<length [-1, 1 :: rat]] = [0, 1]" by (simp add: upt_rec)
  have "filter (\<lambda>i. [-1, 1] ! i < thr) [0..<length [-1, 1 :: rat]] = [0]"
    unfolding two using c by simp
  then show ?thesis
    unfolding thr_def approach1_def
      weak_of_relax [of ds_two "[-1, 1]" "threshold_otsu 256", OF peaks_two otsu_two] .
qed

text \<open>
  Claim C10. The reference-match classifier reads both tables from column position 11
  on: replacing the cell at position 10 of any row, of the measurement table or of the
  media table, leaves the mask unchanged. The outlier classifier reads from position 10
  on, and the threshold classifier reads the whole intensity matrix, whose first column
  sits at position 10 when there are ten header columns: in the examples, replacing one
  cell at position 10 changes the result of each.
\<close>

theorem C10_column_10_ignored_by_reference_match:
  "mask (set_cell i 10 c df) media_df = mask df media_df \<and>
   mask df (set_cell i 10 c media_df) = mask df media_df \<and>
   measurement_df ds_iqr0 = set_cell 4 10 (Num 10) (measurement_df ds_const) \<and>
   approach2 ds_iqr0 \<noteq> approach2 ds_const \<and>
   measurement_df ds_three = set_cell 0 10 (Num 3) (measurement_df ds_two) \<and>
   approach1 (threshold_otsu 256) ds_three \<noteq> approach1 (threshold_otsu 256) ds_two"
proof -
  have a: "mask (set_cell i 10 c df) media_df = mask df media_df"
    by (simp add: mask_def iloc_from_11_set_cell)
  have b: "mask df (set_cell i 10 c media_df) = mask df media_df"
    by (simp add: mask_def media_intensities_def iloc_from_11_set_cell)
  have d: "approach2 ds_iqr0 \<noteq> approach2 ds_const"
    by (simp add: const_5_4 iqr0_result)
  have e: "approach1 (threshold_otsu 256) ds_three \<noteq> approach1 (threshold_otsu 256) ds_two"
    using weak_three weak_two by auto
  from a b d e const_is_update three_is_update show ?thesis by simp
qed

section \<open>Every classifier partitions the rows\<close>

lemma filter_partition: "is_partition n (filter P [0..<n]) (filter (\<lambda>i. \<not> P i) [0..<n])"
  by (auto simp: is_partition_def)

lemma measurement_df_length:
  "wf_dataset ds \<Longrightarrow> length (measurement_df ds) = length (intensities ds)"
  by (simp add: wf_dataset_def measurement_df_def)

lemma approach1_two:
  "approach1_relax (threshold_otsu 256) (715 / 1000) ds_two =
     Inr ([1], [0], otsu_separation 256 [-1, 1] * (715 / 1000))"
proof -
  define thr where "thr = otsu_separation 256 [-1, 1] * (715 / 1000)"
  have c: "\<not> thr \<le> -1" "thr \<le> 1" "-1 < thr" "\<not> 1 < thr"
    using otsu_two_bounds by (simp_all add: thr_def)
  have two: "[0..<length [-1, 1 :: rat]] = [0, 1]" by (simp add: upt_rec)
  have s: "filter (\<lambda>i. [-1, 1] ! i \<ge> thr) [0..<length [-1, 1 :: rat]] = [1]"
    unfolding two using c by simp
  have w: "filter (\<lambda>i. [-1, 1] ! i < thr) [0..<length [-1, 1 :: rat]] = [0]"
    unfolding two using c by simp
  show ?thesis
    unfolding approach1_relax_eq [of ds_two "[-1, 1]" "threshold_otsu 256", OF peaks_two otsu_two]
    unfolding thr_def [symmetric] s w ..
qed

lemma approach2_two: "approach2_fences 5 4 ds_two = Inr ([], [0, 1], [])"
  by code_simp

lemma approach3_two: "approach3 ds_two ds_media = Inr ([0, 1], [])"
  by code_simp

lemma wf_two: "wf_dataset ds_two"
  by code_simp

text \<open>
  Claim C1. Whenever one of the three classifiers returns its two index lists for a
  measurement file of \<open>N\<close> rows, the lists are disjoint and together hold every index
  \<open>0, ..., N - 1\<close> exactly once.
\<close>

theorem C1_classifiers_partition:
  assumes "wf_dataset ds"
  shows "(approach1_relax otsu r ds = Inr (s1, w1, t) \<longrightarrow> is_partition (length (intensities ds)) s1 w1) \<and>
         (approach2_fences k_lo k_hi ds = Inr (s2, w2, out) \<longrightarrow> is_partition (length (intensities ds)) s2 w2) \<and>
         (approach3 ds media = Inr (s3, w3) \<longrightarrow> is_partition (length (intensities ds)) s3 w3)"
proof (intro conjI impI)
  assume a: "approach1_relax otsu r ds = Inr (s1, w1, t)"
  then obtain p where p: "peak_intensities ds = Inr p"
    by (cases "peak_intensities ds") (simp_all add: approach1_relax_def)
  with a obtain t0 where t0: "otsu p = Inr t0"
    by (cases "otsu p") (simp_all add: approach1_relax_def)
  have l: "length p = length (intensities ds)"
    using peak_intensities_Inr [OF p] by simp
  from a have "s1 = filter (\<lambda>i. p ! i \<ge> t0 * r) [0..<length p]"
      "w1 = filter (\<lambda>i. \<not> p ! i \<ge> t0 * r) [0..<length p]"
    by (auto simp: approach1_relax_eq [of ds p otsu t0 r, OF p t0] not_le)
  then show "is_partition (length (intensities ds)) s1 w1"
    using filter_partition [of "length p" "\<lambda>i. p ! i \<ge> t0 * r"] l by simp
next
  assume a: "approach2_fences k_lo k_hi ds = Inr (s2, w2, out)"
  show "is_partition (length (intensities ds)) s2 w2"
    unfolding approach2_fences_Inr(2,3) [OF a] measurement_df_length [OF assms]
    by (rule filter_partition)
next
  assume a: "approach3 ds media = Inr (s3, w3)"
  then have "s3 = filter (\<lambda>i. mask (measurement_df ds) (measurement_df media) ! i) [0..<length (intensities ds)]"
    "w3 = filter (\<lambda>i. \<not> mask (measurement_df ds) (measurement_df media) ! i) [0..<length (intensities ds)]"
    by (simp_all add: approach3_eq measurement_df_length [OF assms])
  then show "is_partition (length (intensities ds)) s3 w3"
    by (simp add: filter_partition)
qed

theorem C1_classifiers_partition_witness:
  "wf_dataset ds_two \<and>
   approach1_relax (threshold_otsu 256) (715 / 1000) ds_two =
     Inr ([1], [0], otsu_separation 256 [-1, 1] * (715 / 1000)) \<and>
   approach2_fences 5 4 ds_two = Inr ([], [0, 1], []) \<and>
   approach3 ds_two ds_media = Inr ([0, 1], []) \<and>
   is_partition (length (intensities ds_two)) [1] [0] \<and>
   is_partition (length (intensities ds_two)) [] [0, 1] \<and>
   is_partition (length (intensities ds_two)) [0, 1] []"
  using C1_classifiers_partition [OF wf_two, of "threshold_otsu 256" "715 / 1000" "[1]" "[0]"
      "otsu_separation 256 [-1, 1] * (715 / 1000)" 5 4 "[]" "[0, 1]" "[]" ds_media "[0, 1]" "[]"]
    wf_two approach1_two approach2_two approach3_two
  by simp

section \<open>The temporal aggregation\<close>

lemma dropna_set: "v \<in> set (dropna xs) \<longleftrightarrow> Some v \<in> set xs"
  by (auto simp: dropna_def split: option.splits)

lemma dropna_length: "length (dropna xs) = length (filter (\<lambda>x. x \<noteq> None) xs)"
  by (induction xs) (auto simp: dropna_def split: option.splits)

lemma dropna_floor_length: "length (dropna (map floor_10Min xs)) = length (dropna xs)"
  by (induction xs) (auto simp: dropna_def floor_10Min_def split: option.splits)

lemma value_counts_sum: "sum_list (map snd (value_counts xs)) = length (dropna xs)"
proof -
  have "sum_list (map snd (value_counts xs)) = sum_list (map (count_list (dropna xs)) (remdups (dropna xs)))"
    by (simp add: value_counts_def comp_def)
  also have "\<dots> = sum (count_list (dropna xs)) (set (dropna xs))"
    by (simp add: sum_list_distinct_conv_sum_set)
  also have "\<dots> = length (dropna xs)"
    by (rule sum_count_set) simp_all
  finally show ?thesis .
qed

lemma insort_key_sum:
  "sum_list (map g (insort_key f x xs)) = (g x :: nat) + sum_list (map g xs)"
  by (induction xs) auto

lemma sort_key_sum: "sum_list (map g (sort_key f xs)) = (sum_list (map g xs) :: nat)"
  by (induction xs) (auto simp: insort_key_sum)

lemma map_insort_key: "map f (insort_key f x xs) = insort (f x) (map f xs)"
  by (induction xs) auto

lemma map_sort_key: "map f (sort_key f xs) = sort (map f xs)"
  by (induction xs) (auto simp: map_insort_key)

lemma count_by_period_total: "total_count (count_by_period DateTime) = length (dropna DateTime)"
proof -
  have "total_count (count_by_period DateTime)
        = sum_list (map snd (sort_index (value_counts (map floor_10Min DateTime))))"
    by (simp add: total_count_def count_by_period_def comp_def case_prod_beta)
  also have "\<dots> = length (dropna (map floor_10Min DateTime))"
    by (simp add: sort_index_def sort_key_sum value_counts_sum)
  finally show ?thesis by (simp add: dropna_floor_length)
qed

lemma count_by_period_starts:
  "map fst (count_by_period DateTime) = sort (remdups (dropna (map floor_10Min DateTime)))"
proof -
  have "map fst (count_by_period DateTime) = map fst (sort_index (value_counts (map floor_10Min DateTime)))"
    by (simp add: count_by_period_def comp_def case_prod_beta)
  also have "\<dots> = sort (map fst (value_counts (map floor_10Min DateTime)))"
    by (simp add: sort_index_def map_sort_key)
  also have "map fst (value_counts (map floor_10Min DateTime)) = remdups (dropna (map floor_10Min DateTime))"
    by (simp add: value_counts_def comp_def)
  finally show ?thesis .
qed

lemma count_by_period_ascending: "sorted_wrt (<) (map fst (count_by_period DateTime))"
  by (simp add: count_by_period_starts strict_sorted_iff)

lemma count_by_period_entry:
  assumes "(s, e, c) \<in> set (count_by_period DateTime)"
  shows "e = s + ten_minutes \<and> s mod ten_minutes = 0 \<and> 0 < c"
proof -
  from assms obtain v n where m: "(v, n) \<in> set (value_counts (map floor_10Min DateTime))"
    and eq: "s = v" "e = v + ten_minutes" "c = n"
    by (auto simp: count_by_period_def sort_index_def)
  from m have v: "v \<in> set (dropna (map floor_10Min DateTime))"
    and n: "n = count_list (dropna (map floor_10Min DateTime)) v"
    by (auto simp: value_counts_def)
  from v obtain t where "v = t - t mod ten_minutes"
    by (auto simp: dropna_set floor_10Min_def map_option_case split: option.splits)
  then have "v mod ten_minutes = 0" by (simp add: minus_mod_eq_mult_div)
  moreover have "count_list (dropna (map floor_10Min DateTime)) v \<noteq> 0"
    using v by (simp only: count_list_0_iff not_not)
  then have "0 < n" using n by simp
  ultimately show ?thesis using eq by simp
qed

lemma grid_gap:
  assumes "a mod ten_minutes = 0" "b mod ten_minutes = 0" "a < b"
  shows "a + ten_minutes \<le> b"
proof -
  have "ten_minutes dvd b - a" using assms(1,2) by (simp add: dvd_diff mod_eq_0_iff_dvd)
  moreover have "0 < b - a" using assms(3) by simp
  ultimately have "ten_minutes \<le> b - a" by (rule zdvd_imp_le)
  then show ?thesis by simp
qed

lemma non_overlapping_grid:
  assumes "sorted_wrt (<) (map fst bs)"
    and "\<forall>(s, e, c) \<in> set bs. e = s + ten_minutes \<and> s mod ten_minutes = 0"
  shows "non_overlapping bs"
  using assms
proof (induction bs rule: non_overlapping.induct)
  case (1 s1 e1 c1 s2 e2 c2 rest)
  from "1.prems" have "s1 < s2" "e1 = s1 + ten_minutes" "s1 mod ten_minutes = 0" "s2 mod ten_minutes = 0"
    by auto
  then have "e1 \<le> s2" using grid_gap [of s1 s2] by simp
  moreover have "non_overlapping ((s2, e2, c2) # rest)"
    using "1.prems" by (intro "1.IH") auto
  ultimately show ?case by simp
qed simp_all

lemma count_by_period_non_overlapping: "non_overlapping (count_by_period DateTime)"
  using count_by_period_ascending [of DateTime] count_by_period_entry [of _ _ _ DateTime]
  by (intro non_overlapping_grid) auto

lemma to_datetime_series_length:
  "to_datetime_series f ss = Inr ts \<Longrightarrow> length ts = length ss"
  by (induction ss arbitrary: ts) (auto split: sum.splits)

lemma mean_intensity_length:
  "mean_intensity rows = Inr ms \<Longrightarrow> length ms = length rows"
  by (induction rows arbitrary: ms) (auto split: sum.splits)

lemma filter_zip_fst:
  "length xs = length ys \<Longrightarrow>
   length (filter (\<lambda>(t, m). P t) (zip xs ys)) = length (filter P xs)"
  by (induction xs ys rule: list_induct2) auto

lemma list_all_zip_fst:
  "length xs = length ys \<Longrightarrow> list_all (\<lambda>(t, m). P t) (zip xs ys) = list_all P xs"
  by (induction xs ys rule: list_induct2) auto

lemma analysis2_approach1_Inr:
  assumes "analysis2_approach1 to_datetime ds strong_spectra = Inr (buckets, series)"
  obtains DateTime m where
    "buckets = count_by_period DateTime" "series = zip DateTime m"
    "length DateTime = length (weak_df ds strong_spectra)"
    "length m = length (weak_df ds strong_spectra)"
proof -
  from assms obtain DateTime where d: "weak_df_DateTime to_datetime ds strong_spectra = Inr DateTime"
    by (cases "weak_df_DateTime to_datetime ds strong_spectra") (simp_all add: analysis2_approach1_def)
  with assms obtain m
    where m: "mean_intensity (map (\<lambda>i. measurement_df ds ! i) (weak_df ds strong_spectra)) = Inr m"
    by (cases "mean_intensity (map (\<lambda>i. measurement_df ds ! i) (weak_df ds strong_spectra))")
       (simp_all add: analysis2_approach1_def)
  from assms d m have r: "buckets = count_by_period DateTime" "series = zip DateTime m"
    by (simp_all add: analysis2_approach1_def)
  from d obtain col where
    "to_datetime_series to_datetime (map (\<lambda>i. col ! i) (weak_df ds strong_spectra)) = Inr DateTime"
    by (cases "df_DateTime ds") (simp_all add: weak_df_DateTime_def)
  then have ld: "length DateTime = length (weak_df ds strong_spectra)"
    using to_datetime_series_length by fastforce
  have lm: "length m = length (weak_df ds strong_spectra)"
    using mean_intensity_length [OF m] by simp
  from r ld lm show thesis by (rule that)
qed

text \<open>
  Claim C5, amended. For the aggregation over the weak rows of the threshold classifier:
  there is one (timestamp, mean) pair per weak row; the counts add up to the number of
  weak rows that have a timestamp, which is all of them when no timestamp is NaT; the
  intervals reported are ten minutes long, start on the ten-minute grid, each hold at
  least one row, come in strictly ascending order and do not overlap (an interval
  without rows is not reported, so they need not be contiguous); without weak rows both
  outputs are empty.
\<close>

theorem C5_temporal_aggregation:
  assumes "analysis2_approach1 to_datetime ds strong_spectra = Inr (buckets, series)"
  shows "length series = length (weak_df ds strong_spectra) \<and>
         total_count buckets = length (filter (\<lambda>(t, m). t \<noteq> None) series) \<and>
         (list_all (\<lambda>(t, m). t \<noteq> None) series \<longrightarrow>
            total_count buckets = length (weak_df ds strong_spectra)) \<and>
         sorted_wrt (<) (map fst buckets) \<and>
         non_overlapping buckets \<and>
         (\<forall>(s, e, c) \<in> set buckets. e = s + ten_minutes \<and> s mod ten_minutes = 0 \<and> 0 < c) \<and>
         (weak_df ds strong_spectra = [] \<longrightarrow> buckets = [] \<and> series = [])"
proof -
  from assms obtain DateTime m where
    b: "buckets = count_by_period DateTime" and s: "series = zip DateTime m"
    and ld: "length DateTime = length (weak_df ds strong_spectra)"
    and lm: "length m = length (weak_df ds strong_spectra)"
    by (rule analysis2_approach1_Inr)
  have l: "length DateTime = length m" using ld lm by simp
  have c1: "length series = length (weak_df ds strong_spectra)" using s ld lm by simp
  have c2: "total_count buckets = length (filter (\<lambda>(t, m). t \<noteq> None) series)"
    unfolding b s count_by_period_total dropna_length filter_zip_fst [OF l] ..
  have c3: "list_all (\<lambda>(t, m). t \<noteq> None) series \<longrightarrow>
            total_count buckets = length (weak_df ds strong_spectra)"
  proof
    assume "list_all (\<lambda>(t, m). t \<noteq> None) series"
    then have "list_all (\<lambda>t. t \<noteq> None) DateTime"
      unfolding s list_all_zip_fst [OF l] .
    then have "filter (\<lambda>t. t \<noteq> None) DateTime = DateTime"
      by (simp add: list_all_iff)
    then show "total_count buckets = length (weak_df ds strong_spectra)"
      unfolding b count_by_period_total dropna_length using ld by simp
  qed
  have c4: "sorted_wrt (<) (map fst buckets)"
    unfolding b by (rule count_by_period_ascending)
  have c5: "non_overlapping buckets"
    unfolding b by (rule count_by_period_non_overlapping)
  have c6: "\<forall>(s, e, c) \<in> set buckets. e = s + ten_minutes \<and> s mod ten_minutes = 0 \<and> 0 < c"
    unfolding b using count_by_period_entry by blast
  have e: "count_by_period [] = []"
    by (simp add: count_by_period_def value_counts_def dropna_def sort_index_def)
  have c7: "weak_df ds strong_spectra = [] \<longrightarrow> buckets = [] \<and> series = []"
  proof
    assume "weak_df ds strong_spectra = []"
    with ld have "DateTime = []" by simp
    with b s e show "buckets = [] \<and> series = []" by simp
  qed
  from c1 c2 c3 c4 c5 c6 c7 show ?thesis by blast
qed

lemma peaks_times: "peak_intensities ds_times = Inr [-1, -1, 1, -1]"
  by (simp add: peak_intensities_def ds_times_def)

lemma otsu_times: "threshold_otsu 256 [-1, -1, 1, -1] = Inr (otsu_separation 256 [-1, -1, 1, -1])"
  by (simp add: threshold_otsu_def)

lemma otsu_times_bounds:
  "-1 < otsu_separation 256 [-1, -1, 1, -1] \<and> otsu_separation 256 [-1, -1, 1, -1] < 1"
  using otsu_separation_bounds [of 256 "[-1, -1, 1, -1]"] by simp

lemma approach1_times:
  "approach1 (threshold_otsu 256) ds_times =
     Inr ([2], [0, 1, 3], otsu_separation 256 [-1, -1, 1, -1] * (715 / 1000))"
proof -
  define thr where "thr = otsu_separation 256 [-1, -1, 1, -1] * (715 / 1000)"
  have c: "\<not> thr \<le> -1" "thr \<le> 1" "-1 < thr" "\<not> 1 < thr"
    using otsu_times_bounds by (simp_all add: thr_def)
  have four: "[0..<length [-1, -1, 1, -1 :: rat]] = [0, 1, 2, 3]" by (simp add: upt_rec)
  have s: "filter (\<lambda>i. [-1, -1, 1, -1] ! i \<ge> thr) [0..<length [-1, -1, 1, -1 :: rat]] = [2]"
    unfolding four using c by simp
  have w: "filter (\<lambda>i. [-1, -1, 1, -1] ! i < thr) [0..<length [-1, -1, 1, -1 :: rat]] = [0, 1, 3]"
    unfolding four using c by simp
  show ?thesis
    unfolding approach1_def
      approach1_relax_eq [of ds_times "[-1, -1, 1, -1]" "threshold_otsu 256", OF peaks_times otsu_times]
    unfolding thr_def [symmetric] s w ..
qed

lemma times_weak_run:
  "analysis2_approach1 to_datetime_example ds_times [2] =
     Inr ([(1672531200000000000, 1672531800000000000, 2),
           (1672532400000000000, 1672533000000000000, 1)],
          [(Some 1672531260000000000, Some (-2)),
           (Some 1672531440000000000, Some (-3 / 2)),
           (Some 1672532700000000000, Some (-1))])"
  by code_simp

lemma times_all_run:
  "analysis2_approach1 to_datetime_example ds_times [] =
     Inr ([(1672531200000000000, 1672531800000000000, 2),
           (1672531800000000000, 1672532400000000000, 1),
           (1672532400000000000, 1672533000000000000, 1)],
          [(Some 1672531260000000000, Some (-2)),
           (Some 1672531440000000000, Some (-3 / 2)),
           (Some 1672531860000000000, Some (1 / 2)),
           (Some 1672532700000000000, Some (-1))])"
  by code_simp

text \<open>
  Claim C5 as stated fails: the threshold classifier labels the third row of the example
  file strong, the weak rows are stamped 00:01, 00:04 and 00:25, and the two intervals
  reported, 00:00 to 00:10 and 00:20 to 00:30, are not contiguous.
\<close>

theorem C5_buckets_not_contiguous_counterexample:
  "approach1 (threshold_otsu 256) ds_times =
     Inr ([2], [0, 1, 3], otsu_separation 256 [-1, -1, 1, -1] * (715 / 1000)) \<and>
   buckets_of (analysis2_approach1 to_datetime_example ds_times [2]) =
     [(1672531200000000000, 1672531800000000000, 2),
      (1672532400000000000, 1672533000000000000, 1)] \<and>
   \<not> contiguous (buckets_of (analysis2_approach1 to_datetime_example ds_times [2]))"
  by (simp add: approach1_times times_weak_run buckets_of_def)

lemma times_none_run:
  "analysis2_approach1 to_datetime_example ds_times [0, 1, 2, 3] = Inr ([], [])"
  by code_simp

lemma times_weak_df: "weak_df ds_times [] = [0, 1, 2, 3]" "weak_df ds_times [0, 1, 2, 3] = []"
  by code_simp+

theorem C5_temporal_aggregation_witness:
  "analysis2_approach1 to_datetime_example ds_times [] =
     Inr ([(1672531200000000000, 1672531800000000000, 2),
           (1672531800000000000, 1672532400000000000, 1),
           (1672532400000000000, 1672533000000000000, 1)],
          [(Some 1672531260000000000, Some (-2)),
           (Some 1672531440000000000, Some (-3 / 2)),
           (Some 1672531860000000000, Some (1 / 2)),
           (Some 1672532700000000000, Some (-1))]) \<and>
   total_count [(1672531200000000000, 1672531800000000000, 2),
                (1672531800000000000, 1672532400000000000, 1),
                (1672532400000000000, 1672533000000000000, 1)] = length (weak_df ds_times []) \<and>
   non_overlapping [(1672531200000000000, 1672531800000000000, 2),
                    (1672531800000000000, 1672532400000000000, 1),
                    (1672532400000000000, 1672533000000000000, 1)] \<and>
   weak_df ds_times [0, 1, 2, 3] = [] \<and>
   analysis2_approach1 to_datetime_example ds_times [0, 1, 2, 3] = Inr ([], [])"
proof -
  note a = C5_temporal_aggregation [OF times_all_run]
  note n = C5_temporal_aggregation [OF times_none_run]
  have "total_count [(1672531200000000000, 1672531800000000000, 2),
                (1672531800000000000, 1672532400000000000, 1),
                (1672532400000000000, 1672533000000000000, 1)] = length (weak_df ds_times [])"
    using a by simp
  moreover have "non_overlapping [(1672531200000000000, 1672531800000000000, 2),
                    (1672531800000000000, 1672532400000000000, 1),
                    (1672532400000000000, 1672533000000000000, 1)]"
    using a by blast
  ultimately show ?thesis
    using n times_all_run times_none_run times_weak_df by simp
qed

text \<open>
  The second run, over the weak rows of approach 2, takes its timestamps from the
  \<^verbatim>\<open>df\<close> of approach 1 by index label. On the example file approach 2 labels every row
  weak, the third row is missing from \<^verbatim>\<open>df\<close> and receives NaT, and the counts add up to
  three for four rows.
\<close>

lemma approach2_times: "approach2 ds_times = Inr ([], [0, 1, 2, 3], [])"
  by code_simp

lemma times_df_dates:
  "weak_df ds_times [2] = [0, 1, 3]"
  "weak_df_DateTime to_datetime_example ds_times [2] =
     Inr [Some 1672531260000000000, Some 1672531440000000000, Some 1672532700000000000]"
  by code_simp+

lemma times_second_run_loses_a_row:
  "measurement_weak_DateTime [0, 1, 3]
     [Some 1672531260000000000, Some 1672531440000000000, Some 1672532700000000000] [0, 1, 2, 3] =
     [Some 1672531260000000000, Some 1672531440000000000, None, Some 1672532700000000000]"
  "total_count (buckets_of (analysis2_approach2 ds_times [0, 1, 3]
     [Some 1672531260000000000, Some 1672531440000000000, Some 1672532700000000000] [0, 1, 2, 3])) = 3"
  by code_simp+

end
